theory Spec2Isabelle
  imports Main "HOL-Library.Word"
begin

section \<open>JavaScript strings\<close>

text \<open>
  A JavaScript string is a sequence of UTF-16 code units; \<open>charCodeAt\<close> reads one
  of them as a number in 0..65535. \<open>js_string\<close> writes an ASCII literal as such a
  sequence.
\<close>

type_synonym jsstring = "16 word list"

definition js_string :: "string \<Rightarrow> jsstring" where
  "js_string s = map (\<lambda>c. word_of_nat (of_char c)) s"

section \<open>hashChannel\<close>

text \<open>
  \<^verbatim>\<open>
  function hashChannel(channel: string): number {
    let hash = 0
    for (let i = 0; i < channel.length; i++) {
      hash = (hash * 31 + channel.charCodeAt(i)) | 0
    }
    return Math.abs(hash)
  }
  \<close>
  \<open>x | 0\<close> is ToInt32: the value modulo 2^32, read as two's complement. The
  operand \<open>hash * 31 + c\<close> stays far below 2^53 in absolute value, so the
  double-precision arithmetic of the source is exact and \<open>int\<close> models it.
\<close>

definition toInt32 :: "int \<Rightarrow> int" where
  "toInt32 x = (x + 2 ^ 31) mod 2 ^ 32 - 2 ^ 31"

fun hash_loop :: "int \<Rightarrow> jsstring \<Rightarrow> int" where
  "hash_loop hash [] = hash"
| "hash_loop hash (c # cs) = hash_loop (toInt32 (hash * 31 + uint c)) cs"

definition hashChannel :: "jsstring \<Rightarrow> int" where
  "hashChannel channel = \<bar>hash_loop 0 channel\<bar>"

section \<open>JSON.stringify on a string\<close>

text \<open>
  The source embeds the channel in the command text with \<open>JSON.stringify(channel)\<close>.
  On a string this is ECMAScript's QuoteJSONString: the value between two double
  quotes, where backspace, tab, line feed, form feed, carriage return, the double
  quote and the backslash are written as a backslash and one character, any other
  code unit below 0x20 and any unpaired surrogate as \<open>\uXXXX\<close> (lower-case hex),
  and everything else as it is. A leading surrogate followed by a trailing one is one
  code point and is kept.
\<close>

definition hex_digit :: "nat \<Rightarrow> 16 word" where
  "hex_digit d = (if d < 10 then word_of_nat (48 + d) else word_of_nat (87 + d))"

definition UnicodeEscape :: "16 word \<Rightarrow> jsstring" where
  "UnicodeEscape c =
     [0x5C, 0x75, hex_digit (unat c div 4096), hex_digit (unat c div 256 mod 16),
      hex_digit (unat c div 16 mod 16), hex_digit (unat c mod 16)]"

definition is_leading_surrogate :: "16 word \<Rightarrow> bool" where
  "is_leading_surrogate c = (0xD800 \<le> c \<and> c \<le> 0xDBFF)"

definition is_trailing_surrogate :: "16 word \<Rightarrow> bool" where
  "is_trailing_surrogate c = (0xDC00 \<le> c \<and> c \<le> 0xDFFF)"

definition escape_code_unit :: "16 word \<Rightarrow> jsstring" where
  "escape_code_unit c =
     (if c = 0x08 then [0x5C, 0x62]
      else if c = 0x09 then [0x5C, 0x74]
      else if c = 0x0A then [0x5C, 0x6E]
      else if c = 0x0C then [0x5C, 0x66]
      else if c = 0x0D then [0x5C, 0x72]
      else if c = 0x22 then [0x5C, 0x22]
      else if c = 0x5C then [0x5C, 0x5C]
      else if c < 0x20 \<or> is_leading_surrogate c \<or> is_trailing_surrogate c
        then UnicodeEscape c
      else [c])"

fun quote_code_units :: "jsstring \<Rightarrow> jsstring" where
  "quote_code_units [] = []"
| "quote_code_units [c] = escape_code_unit c"
| "quote_code_units (c # d # cs) =
     (if is_leading_surrogate c \<and> is_trailing_surrogate d
      then c # d # quote_code_units cs
      else escape_code_unit c @ quote_code_units (d # cs))"

definition JSON_stringify :: "jsstring \<Rightarrow> jsstring" where
  "JSON_stringify s = [0x22] @ quote_code_units s @ [0x22]"

text \<open>
  The quoting the specification asks for, in its words: the name wrapped in double
  quotes with any internal double quote doubled (an SQL quoted identifier).
\<close>

definition spec_quote_ident :: "jsstring \<Rightarrow> jsstring" where
  "spec_quote_ident s =
     [0x22] @ concat (map (\<lambda>c. if c = 0x22 then [0x22, 0x22] else [c]) s) @ [0x22]"

text \<open>
  How the server reads a quoted identifier (PostgreSQL's lexical rule, not code of
  this repository): after the opening double quote, everything up to the first double
  quote that is not doubled; a doubled one stands for one double quote. The result is
  the identifier and the text left after its closing quote; \<open>None\<close> when the text
  does not start with a double quote or the identifier is not closed.
\<close>

fun scan_ident_body :: "jsstring \<Rightarrow> (jsstring \<times> jsstring) option" where
  "scan_ident_body [] = None"
| "scan_ident_body [c] = (if c = 0x22 then Some ([], []) else None)"
| "scan_ident_body (c # d # cs) =
     (if c = 0x22 then
        (if d = 0x22 then
           (case scan_ident_body cs of
              None \<Rightarrow> None
            | Some (name, rest) \<Rightarrow> Some (0x22 # name, rest))
         else Some ([], d # cs))
      else
        (case scan_ident_body (d # cs) of
           None \<Rightarrow> None
         | Some (name, rest) \<Rightarrow> Some (c # name, rest)))"

definition scan_quoted_ident :: "jsstring \<Rightarrow> (jsstring \<times> jsstring) option" where
  "scan_quoted_ident s =
     (case s of [] \<Rightarrow> None | c # cs \<Rightarrow> if c = 0x22 then scan_ident_body cs else None)"

section \<open>The database connection\<close>

text \<open>
  What a JavaScript \<open>throw\<close> carries: an \<open>Error\<close> with its message, a
  \<open>TypeError\<close> (also an instance of \<open>Error\<close>), or a value that is not an
  \<open>Error\<close>. A fallible operation returns \<open>exn + 'a\<close>.
\<close>

datatype exn = Error jsstring | TypeError jsstring | Non_Error

fun instanceof_Error :: "exn \<Rightarrow> bool" where
  "instanceof_Error (Error m) = True"
| "instanceof_Error (TypeError m) = True"
| "instanceof_Error Non_Error = False"

fun message :: "exn \<Rightarrow> jsstring option" where
  "message (Error m) = Some m"
| "message (TypeError m) = Some m"
| "message Non_Error = None"

text \<open>\<open>InitOptions\<close>: the connection string and the \<open>ssl\<close> setting.\<close>

datatype ssl_option =
  Prefer
  | Ssl_params "bool option" "jsstring option"
  | Ssl_off

record init_options =
  connectionString :: jsstring
  ssl :: ssl_option

text \<open>
  The \<open>ssl\<close> field handed to \<open>pg.Client\<close> and \<open>pg.Pool\<close>:
  \<open>undefined\<close>, an object, or \<open>false\<close>.
\<close>

datatype pg_ssl =
  Ssl_undefined
  | Ssl_object "bool option" "jsstring option"
  | Ssl_false

datatype pg_config = Config jsstring pg_ssl

record pg_instance =
  pubSubClient :: pg_config
  pool :: pg_config

datatype param = Num int | Str jsstring

datatype pg_query = Query jsstring "param list"

text \<open>
  The server is the environment: \<open>connect\<close> is the outcome of
  \<open>pubSubClient.connect()\<close> for a client built from a configuration, \<open>respond\<close>
  the outcome of \<open>pubSubClient.query\<close> (the code never reads the rows). Every
  operation takes the server as an argument, so its behaviour may change from one call
  to the next.
\<close>

record server =
  connect :: "pg_config \<Rightarrow> exn + unit"
  respond :: "pg_query \<Rightarrow> exn + unit"

section \<open>Module state\<close>

text \<open>
  The module's variables \<open>dbOptions\<close>, \<open>pgInstance\<close> and \<open>subscribers\<close>,
  and the queries sent on the dedicated client so far, oldest first. Callbacks are
  compared by reference, so \<open>'cb\<close> is the type of their identities. A JavaScript
  \<open>Set\<close> iterates in insertion order: it is the list of its members, oldest first.
  The Prisma client that \<open>init\<close> also constructs plays no part here. Each
  operation runs from its first statement to its last without another one in between.
\<close>

record 'cb world =
  dbOptions :: "init_options option"
  pgInstance :: "pg_instance option"
  subscribers :: "jsstring \<rightharpoonup> 'cb list"
  queries :: "pg_query list"

definition init :: "init_options \<Rightarrow> 'cb world \<Rightarrow> 'cb world" where
  "init initOptions w = w\<lparr>dbOptions := Some initOptions\<rparr>"

definition initial_world :: "'cb world" where
  "initial_world =
     \<lparr>dbOptions = None, pgInstance = None, subscribers = Map.empty, queries = []\<rparr>"

definition client_query :: "server \<Rightarrow> pg_query \<Rightarrow> 'cb world \<Rightarrow> (exn + unit) \<times> 'cb world" where
  "client_query srv q w = (respond srv q, w\<lparr>queries := queries w @ [q]\<rparr>)"

section \<open>getPGInstance\<close>

definition ssl_unsupported :: jsstring where
  "ssl_unsupported = js_string ''The server does not support SSL connections''"

definition getPGInstance :: "server \<Rightarrow> 'cb world \<Rightarrow> (exn + pg_instance) \<times> 'cb world" where
  "getPGInstance srv w =
     (case dbOptions w of
        None \<Rightarrow> (Inl (Error (js_string ''Access db before calling init()'')), w)
      | Some opts \<Rightarrow>
          (case pgInstance w of
             Some inst \<Rightarrow> (Inr inst, w)
           | None \<Rightarrow>
               (let ssl_field =
                      (case ssl opts of
                         Prefer \<Rightarrow> Ssl_undefined
                       | Ssl_params rejectUnauthorized ca \<Rightarrow> Ssl_object rejectUnauthorized ca
                       | Ssl_off \<Rightarrow> Ssl_false);
                    first = Config (connectionString opts) ssl_field;
                    retry = Config (connectionString opts) Ssl_false
                in case connect srv first of
                     Inr u \<Rightarrow>
                       (Inr \<lparr>pubSubClient = first, pool = first\<rparr>,
                        w\<lparr>pgInstance := Some \<lparr>pubSubClient = first, pool = first\<rparr>\<rparr>)
                   | Inl err \<Rightarrow>
                       if ssl opts = Prefer \<and> instanceof_Error err
                          \<and> message err = Some ssl_unsupported
                       then (case connect srv retry of
                               Inr u \<Rightarrow>
                                 (Inr \<lparr>pubSubClient = retry, pool = retry\<rparr>,
                                  w\<lparr>pgInstance := Some \<lparr>pubSubClient = retry, pool = retry\<rparr>\<rparr>)
                             | Inl err2 \<Rightarrow> (Inl err2, w))
                       else (Inl err, w))))"

section \<open>The channel registry\<close>

text \<open>
  \<open>subscribers\<close> is created as the object literal \<open>{}\<close>, so
  \<open>subscribers[channel]\<close> reads the object's own property when there is one and
  otherwise follows the prototype chain to \<open>Object.prototype\<close>: for the names
  below it yields a function or object that is truthy and is not a \<open>Set\<close>; for
  every other name it yields \<open>undefined\<close>.
\<close>

definition object_prototype_keys :: "jsstring list" where
  "object_prototype_keys =
     map js_string
       [''constructor'', ''__defineGetter__'', ''__defineSetter__'', ''hasOwnProperty'',
        ''__lookupGetter__'', ''__lookupSetter__'', ''isPrototypeOf'',
        ''propertyIsEnumerable'', ''toString'', ''valueOf'', ''__proto__'',
        ''toLocaleString'']"

datatype 'cb property = Undefined | Set_object "'cb list" | Inherited

definition lookup :: "(jsstring \<rightharpoonup> 'cb list) \<Rightarrow> jsstring \<Rightarrow> 'cb property" where
  "lookup reg channel =
     (case reg channel of
        Some subs \<Rightarrow> Set_object subs
      | None \<Rightarrow> if channel \<in> set object_prototype_keys then Inherited else Undefined)"

text \<open>\<open>Set.prototype.add\<close> and \<open>Set.prototype.delete\<close>, on the list of members.\<close>

definition set_add :: "'cb \<Rightarrow> 'cb list \<Rightarrow> 'cb list" where
  "set_add cb subs = (if cb \<in> set subs then subs else subs @ [cb])"

definition set_delete :: "'cb \<Rightarrow> 'cb list \<Rightarrow> 'cb list" where
  "set_delete cb subs = removeAll cb subs"

section \<open>subscribe and its unsubscribe handle\<close>

definition lock_query :: "int \<Rightarrow> pg_query" where
  "lock_query channelLockId = Query (js_string ''SELECT pg_advisory_lock($1)'') [Num channelLockId]"

definition unlock_query :: "int \<Rightarrow> pg_query" where
  "unlock_query channelLockId = Query (js_string ''SELECT pg_advisory_unlock($1)'') [Num channelLockId]"

definition listen_query :: "jsstring \<Rightarrow> pg_query" where
  "listen_query channel = Query (js_string ''LISTEN '' @ JSON_stringify channel) []"

definition unlisten_query :: "jsstring \<Rightarrow> pg_query" where
  "unlisten_query channel = Query (js_string ''UNLISTEN '' @ JSON_stringify channel) []"

text \<open>
  The closure that \<open>subscribe\<close> returns captures \<open>channel\<close>,
  \<open>onNotification\<close> and \<open>channelLockId\<close> (and the client, of which there is one).
\<close>

record 'cb handle =
  h_channel :: jsstring
  h_callback :: 'cb
  h_lockId :: int

text \<open>
  The body of the \<open>try\<close> block of \<open>subscribe\<close> (source lines 160 to 172).
  Calling the missing method \<open>add\<close> of an inherited value raises a
  \<open>TypeError\<close>.
\<close>

definition subscribe_body :: "server \<Rightarrow> jsstring \<Rightarrow> 'cb \<Rightarrow> 'cb world \<Rightarrow> (exn + unit) \<times> 'cb world" where
  "subscribe_body srv channel onNotification w =
     (case lookup (subscribers w) channel of
        Set_object subs \<Rightarrow>
          (Inr (), w\<lparr>subscribers := (subscribers w)(channel \<mapsto> set_add onNotification subs)\<rparr>)
      | Inherited \<Rightarrow> (Inl (TypeError (js_string ''subs.add is not a function'')), w)
      | Undefined \<Rightarrow>
          (let w1 = w\<lparr>subscribers := (subscribers w)(channel \<mapsto> [onNotification])\<rparr>;
               (r, w2) = client_query srv (listen_query channel) w1
           in case r of
                Inr u \<Rightarrow> (Inr (), w2)
              | Inl e \<Rightarrow>
                  (case lookup (subscribers w2) channel of
                     Set_object created \<Rightarrow>
                       (Inl e, w2\<lparr>subscribers :=
                                  (subscribers w2)(channel \<mapsto> set_delete onNotification created)\<rparr>)
                   | Inherited \<Rightarrow>
                       (Inl (TypeError (js_string ''subscribers[channel].delete is not a function'')), w2)
                   | Undefined \<Rightarrow>
                       (Inl (TypeError (js_string ''Cannot read properties of undefined'')), w2))))"

text \<open>
  \<open>try { body } finally { unlock }\<close>: the unlock query is sent whatever the body
  did, and an exception of the unlock query replaces the body's outcome.
\<close>

definition finally_unlock :: "server \<Rightarrow> int \<Rightarrow> (exn + unit) \<times> 'cb world \<Rightarrow> (exn + unit) \<times> 'cb world" where
  "finally_unlock srv channelLockId body =
     (let (r, w1) = body;
          (u, w2) = client_query srv (unlock_query channelLockId) w1
      in case u of Inl e \<Rightarrow> (Inl e, w2) | Inr x \<Rightarrow> (r, w2))"

definition subscribe :: "server \<Rightarrow> jsstring \<Rightarrow> 'cb \<Rightarrow> 'cb world \<Rightarrow> (exn + 'cb handle) \<times> 'cb world" where
  "subscribe srv channel onNotification w =
     (case getPGInstance srv w of
        (Inl e, w1) \<Rightarrow> (Inl e, w1)
      | (Inr inst, w1) \<Rightarrow>
          (let channelLockId = hashChannel channel in
           case client_query srv (lock_query channelLockId) w1 of
             (Inl e, w2) \<Rightarrow> (Inl e, w2)
           | (Inr u, w2) \<Rightarrow>
               (case finally_unlock srv channelLockId
                       (subscribe_body srv channel onNotification w2) of
                  (Inl e, w3) \<Rightarrow> (Inl e, w3)
                | (Inr v, w3) \<Rightarrow>
                    (Inr \<lparr>h_channel = channel, h_callback = onNotification,
                          h_lockId = channelLockId\<rparr>, w3))))"

text \<open>The body of the \<open>try\<close> block of the handle (source lines 184 to 195).\<close>

definition unsubscribe_body :: "server \<Rightarrow> 'cb handle \<Rightarrow> 'cb world \<Rightarrow> (exn + unit) \<times> 'cb world" where
  "unsubscribe_body srv h w =
     (case lookup (subscribers w) (h_channel h) of
        Undefined \<Rightarrow> (Inr (), w)
      | Inherited \<Rightarrow> (Inl (TypeError (js_string ''subs.delete is not a function'')), w)
      | Set_object subs \<Rightarrow>
          (let remaining = set_delete (h_callback h) subs;
               w1 = w\<lparr>subscribers := (subscribers w)(h_channel h \<mapsto> remaining)\<rparr>
           in if length remaining = 0 then
                (case client_query srv (unlisten_query (h_channel h)) w1 of
                   (Inl e, w2) \<Rightarrow> (Inl e, w2)
                 | (Inr u, w2) \<Rightarrow>
                     (Inr (), w2\<lparr>subscribers := (subscribers w2)(h_channel h := None)\<rparr>))
              else (Inr (), w1)))"

definition unsubscribe :: "server \<Rightarrow> 'cb handle \<Rightarrow> 'cb world \<Rightarrow> (exn + unit) \<times> 'cb world" where
  "unsubscribe srv h w =
     (case client_query srv (lock_query (h_lockId h)) w of
        (Inl e, w1) \<Rightarrow> (Inl e, w1)
      | (Inr u, w1) \<Rightarrow> finally_unlock srv (h_lockId h) (unsubscribe_body srv h w1))"

section \<open>The notification handler and publish\<close>

record notification =
  channel :: jsstring
  payload :: "jsstring option"

text \<open>
  \<open>subs.forEach((sub) => { sub(notification.payload) })\<close>: the callbacks run in the
  set's order; the first one that throws ends the iteration and its exception leaves
  the handler. \<open>run cb\<close> is what calling the callback does (a callback that changes
  the registry while the iteration runs is not modelled). The result is the outcome
  and the callbacks that were called, in order.
\<close>

fun forEach :: "('cb \<Rightarrow> exn + unit) \<Rightarrow> 'cb list \<Rightarrow> (exn + unit) \<times> 'cb list" where
  "forEach run [] = (Inr (), [])"
| "forEach run (sub # subs) =
     (case run sub of
        Inl e \<Rightarrow> (Inl e, [sub])
      | Inr u \<Rightarrow> (let (r, called) = forEach run subs in (r, sub # called)))"

text \<open>
  The handler of source lines 131 to 140. \<open>behaviour cb p\<close> is the outcome of
  calling callback \<open>cb\<close> with payload \<open>p\<close>; the second component of the result
  lists the calls made, each with the payload it was given.
\<close>

definition on_notification ::
  "('cb \<Rightarrow> jsstring option \<Rightarrow> exn + unit) \<Rightarrow> notification \<Rightarrow> 'cb world
     \<Rightarrow> (exn + unit) \<times> ('cb \<times> jsstring option) list" where
  "on_notification behaviour n w =
     (case lookup (subscribers w) (channel n) of
        Undefined \<Rightarrow> (Inr (), [])
      | Inherited \<Rightarrow> (Inl (TypeError (js_string ''subs.forEach is not a function'')), [])
      | Set_object subs \<Rightarrow>
          (let (r, called) = forEach (\<lambda>sub. behaviour sub (payload n)) subs
           in (r, map (\<lambda>sub. (sub, payload n)) called)))"

definition publish :: "server \<Rightarrow> jsstring \<Rightarrow> jsstring \<Rightarrow> 'cb world \<Rightarrow> (exn + unit) \<times> 'cb world" where
  "publish srv chan msg w =
     (case getPGInstance srv w of
        (Inl e, w1) \<Rightarrow> (Inl e, w1)
      | (Inr inst, w1) \<Rightarrow>
          client_query srv (Query (js_string ''SELECT pg_notify($1, $2)'') [Str chan, Str msg]) w1)"

section \<open>Auxiliary predicates and example environments\<close>

text \<open>A code unit that QuoteJSONString copies unchanged and that is no double quote.\<close>

definition plain_code_unit :: "16 word \<Rightarrow> bool" where
  "plain_code_unit c =
     (0x20 \<le> c \<and> c \<noteq> 0x22 \<and> c \<noteq> 0x5C
      \<and> \<not> is_leading_surrogate c \<and> \<not> is_trailing_surrogate c)"

text \<open>The representation invariant of the registry: every member list is a set.\<close>

definition distinct_sets :: "'cb world \<Rightarrow> bool" where
  "distinct_sets w = (\<forall>chan subs. subscribers w chan = Some subs \<longrightarrow> distinct subs)"

text \<open>
  Concrete environments for the evaluations below: a server that accepts everything,
  one that rejects a single query, one that rejects every connection attempt but the
  one without SSL, one that rejects every connection attempt for another reason, one
  that answers every connection attempt, the retry included, with the message that it
  does not support SSL, and the module after \<open>init\<close> and a first
  \<open>getPGInstance\<close>.
\<close>

definition example_options :: init_options where
  "example_options = \<lparr>connectionString = js_string ''postgres://db/briefer'', ssl = Prefer\<rparr>"

definition ok_server :: server where
  "ok_server = \<lparr>connect = (\<lambda>c. Inr ()), respond = (\<lambda>q. Inr ())\<rparr>"

definition refusing :: "pg_query \<Rightarrow> server" where
  "refusing bad =
     \<lparr>connect = (\<lambda>c. Inr ()),
      respond = (\<lambda>q. if q = bad then Inl (Error (js_string ''query failed'')) else Inr ())\<rparr>"

definition no_ssl_server :: server where
  "no_ssl_server =
     \<lparr>connect = (\<lambda>c. case c of Config cs s \<Rightarrow>
                   if s = Ssl_false then Inr () else Inl (Error ssl_unsupported)),
      respond = (\<lambda>q. Inr ())\<rparr>"

definition auth_refused_server :: server where
  "auth_refused_server =
     \<lparr>connect = (\<lambda>c. Inl (Error (js_string ''password authentication failed''))),
      respond = (\<lambda>q. Inr ())\<rparr>"

definition ssl_refusing_server :: server where
  "ssl_refusing_server =
     \<lparr>connect = (\<lambda>c. Inl (Error ssl_unsupported)), respond = (\<lambda>q. Inr ())\<rparr>"

definition ready_world :: "nat world" where
  "ready_world = snd (getPGInstance ok_server (init example_options initial_world))"

text \<open>
  No channel name that \<open>Object.prototype\<close> defines has an entry of its own in the
  registry.
\<close>

definition no_inherited_entries :: "'cb world \<Rightarrow> bool" where
  "no_inherited_entries w = (\<forall>k\<in>set object_prototype_keys. subscribers w k = None)"

text \<open>
  The channel, payload, callbacks and states of the worked examples: callbacks 10, 20
  and 30; \<open>raising bad\<close> makes callback \<open>bad\<close> throw, \<open>quiet\<close> lets every
  callback return; \<open>h42\<close> is the handle of callback 10 on channel \<open>docs:42\<close>.
\<close>

definition docs42 :: jsstring where "docs42 = js_string ''docs:42''"

definition updated :: jsstring where
  "updated = js_string ''updated''"

definition example_instance :: pg_instance where
  "example_instance =
     \<lparr>pubSubClient = Config (connectionString example_options) Ssl_undefined,
      pool = Config (connectionString example_options) Ssl_undefined\<rparr>"

definition connected :: "'cb world \<Rightarrow> bool" where
  "connected w = (dbOptions w = Some example_options \<and> pgInstance w = Some example_instance)"

definition h42 :: "nat handle" where
  "h42 = \<lparr>h_channel = docs42, h_callback = 10, h_lockId = hashChannel docs42\<rparr>"

definition raising :: "nat \<Rightarrow> nat \<Rightarrow> jsstring option \<Rightarrow> exn + unit" where
  "raising bad cb p = (if cb = bad then Inl (Error (js_string ''callback failed'')) else Inr ())"

definition quiet :: "nat \<Rightarrow> jsstring option \<Rightarrow> exn + unit" where
  "quiet cb p = Inr ()"

definition one_subscriber :: "nat world" where
  "one_subscriber = snd (subscribe ok_server docs42 10 ready_world)"

definition three_subscribers :: "nat world" where
  "three_subscribers =
     snd (subscribe ok_server docs42 30 (snd (subscribe ok_server docs42 20 one_subscriber)))"

definition after_failed_listen :: "nat world" where
  "after_failed_listen = snd (subscribe (refusing (listen_query docs42)) docs42 10 ready_world)"

definition after_failed_unlisten :: "nat world" where
  "after_failed_unlisten = snd (unsubscribe (refusing (unlisten_query docs42)) h42 one_subscriber)"

section \<open>Properties of hashChannel\<close>

lemma toInt32_range: "- 2147483648 \<le> toInt32 x \<and> toInt32 x \<le> 2147483647"
proof -
  have "0 \<le> (x + 2 ^ 31) mod (2 ^ 32 :: int)" by simp
  moreover have "(x + 2 ^ 31) mod (2 ^ 32 :: int) < 2 ^ 32" by simp
  ultimately show ?thesis unfolding toInt32_def by simp
qed

lemma hash_loop_range:
  "- 2147483648 \<le> hash \<Longrightarrow> hash \<le> 2147483647 \<Longrightarrow>
   - 2147483648 \<le> hash_loop hash cs \<and> hash_loop hash cs \<le> 2147483647"
proof (induction cs arbitrary: hash)
  case Nil
  then show ?case by simp
next
  case (Cons c cs)
  show ?case
    using Cons.IH [of "toInt32 (hash * 31 + uint c)"] toInt32_range [of "hash * 31 + uint c"]
    by simp
qed

text \<open>
  The operand of \<open>| 0\<close> is below 2^53 in absolute value at every step, so the
  source's floating-point product and sum are exact.
\<close>

lemma hash_step_exact:
  "- 2147483648 \<le> hash \<Longrightarrow> hash \<le> 2147483647 \<Longrightarrow>
   \<bar>hash * 31 + uint (c :: 16 word)\<bar> < 9007199254740992"
proof -
  assume a: "- 2147483648 \<le> hash" "hash \<le> 2147483647"
  have "uint c < 65536" using uint_bounded [of c] by simp
  moreover have "0 \<le> uint c" by simp
  ultimately show ?thesis using a by linarith
qed

text \<open>
  C3, as the code has it: \<open>hashChannel\<close> is a function of the channel name alone
  (the same name always gives the same token), and the token is an integer between 0
  and 2^31 inclusive. It equals 2^31, one more than the largest 32-bit signed integer,
  exactly when the 32-bit hash is -2^31, because \<open>Math.abs\<close> of that value is not
  a 32-bit signed integer.
\<close>

theorem hashChannel_range:
  "(\<forall>c. c = chan \<longrightarrow> hashChannel c = hashChannel chan) \<and>
   0 \<le> hashChannel chan \<and> hashChannel chan \<le> 2147483648 \<and>
   (hashChannel chan = 2147483648 \<longleftrightarrow> hash_loop 0 chan = - 2147483648)"
  using hash_loop_range [of 0 chan] unfolding hashChannel_def by auto

text \<open>
  The token of \<open>docs:42\<close>.
\<close>

theorem hashChannel_range_witness:
  "hashChannel (js_string ''docs:42'') = 1828802589 \<and>
   0 \<le> hashChannel (js_string ''docs:42'') \<and>
   hashChannel (js_string ''docs:42'') \<le> 2147483648"
  using hashChannel_range [of "js_string ''docs:42''"]
  by (simp add: hashChannel_def js_string_def toInt32_def)

text \<open>
  C3 as stated fails: the channel name \<open>polygenelubricants\<close> hashes to -2^31, and
  its token 2^31 = 2147483648 lies outside the 32-bit signed range.
\<close>

theorem hashChannel_counterexample:
  "\<not> (- 2147483648 \<le> hashChannel (js_string ''polygenelubricants'') \<and>
      hashChannel (js_string ''polygenelubricants'') \<le> 2147483647)"
  by (simp add: hashChannel_def js_string_def toInt32_def)

section \<open>Quoting of the channel in LISTEN and UNLISTEN\<close>

text \<open>
  The quoting of the specification is safe for every name: the server reads back
  exactly the name and nothing is left over.
\<close>

lemma scan_spec_body:
  "scan_ident_body (concat (map (\<lambda>c. if c = 0x22 then [0x22, 0x22] else [c]) s) @ [0x22])
     = Some (s, [])"
proof (induction s)
  case Nil
  then show ?case by simp
next
  case (Cons c s)
  show ?case
  proof (cases "c = 0x22")
    case True
    then show ?thesis using Cons.IH by simp
  next
    case False
    obtain d ds where
      r: "concat (map (\<lambda>c. if c = 0x22 then [0x22, 0x22] else [c]) s) @ [0x22] = d # ds"
      by (cases "concat (map (\<lambda>c. if c = 0x22 then [0x22, 0x22] else [c :: 16 word]) s) @ [0x22]")
        auto
    show ?thesis using False Cons.IH r by simp
  qed
qed

lemma scan_spec_quote_ident: "scan_quoted_ident (spec_quote_ident s) = Some (s, [])"
  by (simp add: scan_quoted_ident_def spec_quote_ident_def scan_spec_body)

text \<open>
  \<open>JSON.stringify\<close> agrees with that quoting on names made of plain code units
  only: no double quote, no backslash, no control character, no surrogate.
\<close>

lemma escape_plain: "plain_code_unit c \<Longrightarrow> escape_code_unit c = [c]"
  unfolding plain_code_unit_def escape_code_unit_def
  by (auto simp: not_less [symmetric])

lemma quote_plain: "\<forall>c\<in>set s. plain_code_unit c \<Longrightarrow> quote_code_units s = s"
proof (induction s rule: quote_code_units.induct)
  case 1
  then show ?case by simp
next
  case (2 c)
  then show ?case by (simp add: escape_plain)
next
  case (3 c d cs)
  then show ?case by (auto simp: escape_plain plain_code_unit_def)
qed

lemma JSON_stringify_plain:
  "\<forall>c\<in>set s. plain_code_unit c \<Longrightarrow> JSON_stringify s = spec_quote_ident s"
proof -
  assume a: "\<forall>c\<in>set s. plain_code_unit c"
  then have "concat (map (\<lambda>c. if c = 0x22 then [0x22, 0x22] else [c]) s) = s"
    by (induction s) (auto simp: plain_code_unit_def)
  then show ?thesis using a by (simp add: JSON_stringify_def spec_quote_ident_def quote_plain)
qed

text \<open>
  C2 fails on the code. For the three-character channel name a, double quote, b the
  LISTEN and UNLISTEN commands carry the JSON text: quote, a, backslash, quote, b,
  quote. The quoting of the specification doubles the inner quote instead: quote, a,
  quote, quote, b, quote.
\<close>

theorem listen_command_embedded_quote:
  "listen_query [0x61, 0x22, 0x62]
     = Query (js_string ''LISTEN '' @ [0x22, 0x61, 0x5C, 0x22, 0x62, 0x22]) [] \<and>
   unlisten_query [0x61, 0x22, 0x62]
     = Query (js_string ''UNLISTEN '' @ [0x22, 0x61, 0x5C, 0x22, 0x62, 0x22]) [] \<and>
   spec_quote_ident [0x61, 0x22, 0x62] = [0x22, 0x61, 0x22, 0x22, 0x62, 0x22] \<and>
   JSON_stringify [0x61, 0x22, 0x62] \<noteq> spec_quote_ident [0x61, 0x22, 0x62]"
  by (simp add: listen_query_def unlisten_query_def JSON_stringify_def spec_quote_ident_def
      escape_code_unit_def is_leading_surrogate_def is_trailing_surrogate_def js_string_def)

text \<open>
  Read as an SQL quoted identifier, that JSON text ends at the inner quote: the
  identifier is a followed by a backslash, and b with a quote is left over as further
  command text. So the channel name changes the structure of the command.
\<close>

lemma embedded_quote_ends_identifier:
  "scan_quoted_ident (JSON_stringify [0x61, 0x22, 0x62]) = Some ([0x61, 0x5C], [0x62, 0x22])"
  by (simp add: JSON_stringify_def escape_code_unit_def scan_quoted_ident_def
      is_leading_surrogate_def is_trailing_surrogate_def)

section \<open>getPGInstance: the connection factory\<close>

lemma getPGInstance_keeps:
  "subscribers (snd (getPGInstance srv w)) = subscribers w \<and>
   queries (snd (getPGInstance srv w)) = queries w \<and>
   dbOptions (snd (getPGInstance srv w)) = dbOptions w"
  by (simp add: getPGInstance_def Let_def split: option.splits sum.splits)

lemma getPGInstance_established:
  "dbOptions w = Some opts \<Longrightarrow> pgInstance w = Some inst \<Longrightarrow> getPGInstance srv w = (Inr inst, w)"
  by (simp add: getPGInstance_def)

lemma getPGInstance_memo:
  "getPGInstance srv w = (Inr inst, w1) \<Longrightarrow> pgInstance w1 = Some inst"
  by (auto simp: getPGInstance_def Let_def split: option.splits sum.splits if_splits)

text \<open>
  C8, as the code has it: with \<open>ssl: 'prefer'\<close> and no connection yet, the first
  attempt is made with the \<open>ssl\<close> field left undefined, so the code itself asks for
  no transport security and the driver chooses the transport from the connection
  string and its environment. If that attempt fails with an \<open>Error\<close> whose message
  is exactly "The server does not support SSL connections", both the dedicated client
  and the pool are rebuilt with \<open>ssl: false\<close> and the connection is attempted once
  more. When that attempt succeeds, the call returns the rebuilt client and pool
  without raising and remembers them. A failure of the retry, and any other failure
  of the first attempt, is raised to the caller and leaves the module state as it was.
\<close>

theorem getPGInstance_prefer:
  assumes "dbOptions w = Some opts" and "ssl opts = Prefer" and "pgInstance w = None"
  shows "(\<forall>e. connect srv (Config (connectionString opts) Ssl_undefined) = Inl e
              \<and> instanceof_Error e \<and> message e = Some ssl_unsupported
              \<and> connect srv (Config (connectionString opts) Ssl_false) = Inr ()
            \<longrightarrow> getPGInstance srv w
                  = (Inr \<lparr>pubSubClient = Config (connectionString opts) Ssl_false,
                          pool = Config (connectionString opts) Ssl_false\<rparr>,
                     w\<lparr>pgInstance :=
                         Some \<lparr>pubSubClient = Config (connectionString opts) Ssl_false,
                               pool = Config (connectionString opts) Ssl_false\<rparr>\<rparr>)) \<and>
         (\<forall>e. connect srv (Config (connectionString opts) Ssl_undefined) = Inl e
              \<and> \<not> (instanceof_Error e \<and> message e = Some ssl_unsupported)
            \<longrightarrow> getPGInstance srv w = (Inl e, w)) \<and>
         (\<forall>e e2. connect srv (Config (connectionString opts) Ssl_undefined) = Inl e
              \<and> instanceof_Error e \<and> message e = Some ssl_unsupported
              \<and> connect srv (Config (connectionString opts) Ssl_false) = Inl e2
            \<longrightarrow> getPGInstance srv w = (Inl e2, w)) \<and>
         (connect srv (Config (connectionString opts) Ssl_undefined) = Inr ()
            \<longrightarrow> getPGInstance srv w
                  = (Inr \<lparr>pubSubClient = Config (connectionString opts) Ssl_undefined,
                          pool = Config (connectionString opts) Ssl_undefined\<rparr>,
                     w\<lparr>pgInstance :=
                         Some \<lparr>pubSubClient = Config (connectionString opts) Ssl_undefined,
                               pool = Config (connectionString opts) Ssl_undefined\<rparr>\<rparr>))"
  using assms by (auto simp: getPGInstance_def Let_def)

section \<open>Sets of callbacks\<close>

lemma distinct_set_add: "distinct subs \<Longrightarrow> distinct (set_add cb subs)"
  by (simp add: set_add_def)

lemma distinct_set_delete: "distinct subs \<Longrightarrow> distinct (set_delete cb subs)"
  by (simp add: set_delete_def distinct_removeAll)

lemma set_add_member: "cb \<in> set subs \<Longrightarrow> set_add cb subs = subs"
  by (simp add: set_add_def)

lemma set_add_new: "cb \<notin> set subs \<Longrightarrow> set_add cb subs = subs @ [cb]"
  by (simp add: set_add_def)

lemma set_delete_absent: "cb \<notin> set subs \<Longrightarrow> set_delete cb subs = subs"
  by (simp add: set_delete_def)

lemma set_delete_removes: "cb \<notin> set (set_delete cb subs)"
  by (simp add: set_delete_def)

lemma set_delete_empty_iff: "set_delete cb subs = [] \<longleftrightarrow> set subs \<subseteq> {cb}"
  by (induction subs) (auto simp: set_delete_def)

lemma count_list_distinct: "distinct xs \<Longrightarrow> x \<in> set xs \<Longrightarrow> count_list xs x = 1"
  by (induction xs) auto

lemma count_list_distinct_le: "distinct xs \<Longrightarrow> count_list xs x \<le> 1"
  by (induction xs) auto

section \<open>subscribe, case by case\<close>

text \<open>
  The three outcomes of the registry lookup, once the connection is there and the
  advisory lock was granted. A first subscription sends exactly one LISTEN between the
  lock and the unlock; a subscription to an existing set sends none.
\<close>

lemma subscribe_first:
  assumes "getPGInstance srv w = (Inr inst, w1)"
      and "respond srv (lock_query (hashChannel chan)) = Inr ()"
      and "lookup (subscribers w) chan = Undefined"
  shows "queries (snd (subscribe srv chan cb w))
           = queries w @ [lock_query (hashChannel chan), listen_query chan,
                          unlock_query (hashChannel chan)]"
    and "respond srv (listen_query chan) = Inr () \<Longrightarrow>
         subscribers (snd (subscribe srv chan cb w)) = (subscribers w)(chan \<mapsto> [cb])"
    and "respond srv (listen_query chan) = Inr () \<Longrightarrow>
         respond srv (unlock_query (hashChannel chan)) = Inr () \<Longrightarrow>
         fst (subscribe srv chan cb w)
           = Inr \<lparr>h_channel = chan, h_callback = cb, h_lockId = hashChannel chan\<rparr>"
    and "respond srv (listen_query chan) = Inl e \<Longrightarrow>
         subscribers (snd (subscribe srv chan cb w)) = (subscribers w)(chan \<mapsto> [])"
    and "respond srv (listen_query chan) = Inl e \<Longrightarrow> isl (fst (subscribe srv chan cb w))"
  using assms getPGInstance_keeps [of srv w]
  by (auto simp: subscribe_def subscribe_body_def finally_unlock_def client_query_def Let_def
      lookup_def set_delete_def split: sum.splits option.splits if_splits)

lemma subscribe_existing:
  assumes "getPGInstance srv w = (Inr inst, w1)"
      and "respond srv (lock_query (hashChannel chan)) = Inr ()"
      and "subscribers w chan = Some subs"
  shows "queries (snd (subscribe srv chan cb w))
           = queries w @ [lock_query (hashChannel chan), unlock_query (hashChannel chan)]"
    and "subscribers (snd (subscribe srv chan cb w)) = (subscribers w)(chan \<mapsto> set_add cb subs)"
    and "respond srv (unlock_query (hashChannel chan)) = Inr () \<Longrightarrow>
         fst (subscribe srv chan cb w)
           = Inr \<lparr>h_channel = chan, h_callback = cb, h_lockId = hashChannel chan\<rparr>"
  using assms getPGInstance_keeps [of srv w]
  by (auto simp: subscribe_def subscribe_body_def finally_unlock_def client_query_def Let_def
      lookup_def split: sum.splits option.splits if_splits)

lemma subscribe_inherited:
  assumes "getPGInstance srv w = (Inr inst, w1)"
      and "respond srv (lock_query (hashChannel chan)) = Inr ()"
      and "lookup (subscribers w) chan = Inherited"
  shows "queries (snd (subscribe srv chan cb w))
           = queries w @ [lock_query (hashChannel chan), unlock_query (hashChannel chan)]"
    and "subscribers (snd (subscribe srv chan cb w)) = subscribers w"
    and "isl (fst (subscribe srv chan cb w))"
  using assms getPGInstance_keeps [of srv w]
  by (auto simp: subscribe_def subscribe_body_def finally_unlock_def client_query_def Let_def
      split: sum.splits option.splits if_splits)

lemma subscribe_ok_handle:
  "subscribe srv chan cb w = (Inr h, w') \<Longrightarrow>
   h = \<lparr>h_channel = chan, h_callback = cb, h_lockId = hashChannel chan\<rparr>"
  by (auto simp: subscribe_def Let_def split: sum.splits prod.splits)

lemma subscribers_after_subscribe:
  "subscribers (snd (subscribe srv chan cb w)) = subscribers w \<or>
   (\<exists>subs. subscribers (snd (subscribe srv chan cb w)) = (subscribers w)(chan \<mapsto> subs) \<and>
      (lookup (subscribers w) chan = Undefined \<and> (subs = [cb] \<or> subs = [])
       \<or> (\<exists>old. subscribers w chan = Some old \<and> subs = set_add cb old)))"
  using getPGInstance_keeps [of srv w]
  by (auto simp: subscribe_def subscribe_body_def finally_unlock_def client_query_def Let_def
      lookup_def set_delete_def split: sum.splits option.splits if_splits prod.splits)

lemma subscribe_ok_registered:
  assumes "subscribe srv chan cb w = (Inr h, w')"
  shows "(\<exists>old. subscribers w chan = Some old \<and> subscribers w' chan = Some (set_add cb old))
         \<or> (subscribers w chan = None \<and> subscribers w' chan = Some [cb])"
  using assms getPGInstance_keeps [of srv w]
  by (auto simp: subscribe_def subscribe_body_def finally_unlock_def client_query_def Let_def
      lookup_def set_delete_def split: sum.splits option.splits if_splits prod.splits)

section \<open>The unsubscribe handle, case by case\<close>

lemma unsubscribe_lock_refused:
  "respond srv (lock_query (h_lockId h)) = Inl e \<Longrightarrow>
   unsubscribe srv h w = (Inl e, w\<lparr>queries := queries w @ [lock_query (h_lockId h)]\<rparr>)"
  by (simp add: unsubscribe_def client_query_def)

lemma unsubscribe_absent_entry:
  assumes "respond srv (lock_query (h_lockId h)) = Inr ()"
      and "lookup (subscribers w) (h_channel h) = Undefined"
  shows "queries (snd (unsubscribe srv h w))
           = queries w @ [lock_query (h_lockId h), unlock_query (h_lockId h)]"
    and "subscribers (snd (unsubscribe srv h w)) = subscribers w"
    and "fst (unsubscribe srv h w) = respond srv (unlock_query (h_lockId h))"
  using assms
  by (auto simp: unsubscribe_def unsubscribe_body_def finally_unlock_def client_query_def
      split: sum.splits)

lemma unsubscribe_others_remain:
  assumes "respond srv (lock_query (h_lockId h)) = Inr ()"
      and "subscribers w (h_channel h) = Some subs"
      and "set_delete (h_callback h) subs \<noteq> []"
  shows "queries (snd (unsubscribe srv h w))
           = queries w @ [lock_query (h_lockId h), unlock_query (h_lockId h)]"
    and "subscribers (snd (unsubscribe srv h w))
           = (subscribers w)(h_channel h \<mapsto> set_delete (h_callback h) subs)"
    and "fst (unsubscribe srv h w) = respond srv (unlock_query (h_lockId h))"
  using assms
  by (auto simp: unsubscribe_def unsubscribe_body_def finally_unlock_def client_query_def
      lookup_def Let_def split: sum.splits)

lemma unsubscribe_emptied:
  assumes "respond srv (lock_query (h_lockId h)) = Inr ()"
      and "subscribers w (h_channel h) = Some subs"
      and "set_delete (h_callback h) subs = []"
  shows "queries (snd (unsubscribe srv h w))
           = queries w @ [lock_query (h_lockId h), unlisten_query (h_channel h),
                          unlock_query (h_lockId h)]"
    and "respond srv (unlisten_query (h_channel h)) = Inr () \<Longrightarrow>
         subscribers (snd (unsubscribe srv h w)) = (subscribers w)(h_channel h := None)"
    and "respond srv (unlisten_query (h_channel h)) = Inr () \<Longrightarrow>
         fst (unsubscribe srv h w) = respond srv (unlock_query (h_lockId h))"
    and "respond srv (unlisten_query (h_channel h)) = Inl e \<Longrightarrow>
         subscribers (snd (unsubscribe srv h w)) = (subscribers w)(h_channel h \<mapsto> [])"
    and "respond srv (unlisten_query (h_channel h)) = Inl e \<Longrightarrow>
         isl (fst (unsubscribe srv h w))"
  using assms
  by (auto simp: unsubscribe_def unsubscribe_body_def finally_unlock_def client_query_def
      lookup_def Let_def split: sum.splits)

lemma subscribers_after_unsubscribe:
  "subscribers (snd (unsubscribe srv h w)) = subscribers w \<or>
   (\<exists>old. subscribers w (h_channel h) = Some old \<and>
      (subscribers (snd (unsubscribe srv h w))
         = (subscribers w)(h_channel h \<mapsto> set_delete (h_callback h) old)
       \<or> subscribers (snd (unsubscribe srv h w)) = (subscribers w)(h_channel h := None)))"
  by (auto simp: unsubscribe_def unsubscribe_body_def finally_unlock_def client_query_def Let_def
      lookup_def split: sum.splits option.splits if_splits prod.splits)

section \<open>The notification handler\<close>

lemma forEach_all_ok: "\<forall>s\<in>set subs. run s = Inr () \<Longrightarrow> forEach run subs = (Inr (), subs)"
  by (induction subs) auto

lemma forEach_first_raise:
  "\<forall>s\<in>set pre. run s = Inr () \<Longrightarrow> run sub = Inl e \<Longrightarrow>
   forEach run (pre @ sub # post) = (Inl e, pre @ [sub])"
  by (induction pre) auto

lemma forEach_prefix: "\<exists>rest. subs = snd (forEach run subs) @ rest"
  by (induction subs) (auto split: sum.splits prod.splits)

lemma forEach_completed: "fst (forEach run subs) = Inr () \<Longrightarrow> snd (forEach run subs) = subs"
  by (induction subs) (auto split: sum.splits prod.splits)

lemma forEach_reaches:
  "\<forall>s\<in>set (takeWhile (\<lambda>s. s \<noteq> cb) subs). run s = Inr () \<Longrightarrow> cb \<in> set subs \<Longrightarrow>
   cb \<in> set (snd (forEach run subs))"
proof (induction subs)
  case Nil
  then show ?case by simp
next
  case (Cons a subs)
  show ?case
  proof (cases "a = cb")
    case True
    then show ?thesis by (auto split: sum.splits prod.splits)
  next
    case False
    then have "run a = Inr ()" and "cb \<in> set subs"
      and "\<forall>s\<in>set (takeWhile (\<lambda>s. s \<noteq> cb) subs). run s = Inr ()"
      using Cons.prems by auto
    then show ?thesis using Cons.IH by (auto split: prod.splits)
  qed
qed

lemma publish_keeps: "subscribers (snd (publish srv chan msg w)) = subscribers w"
  using getPGInstance_keeps [of srv w]
  by (auto simp: publish_def client_query_def split: prod.splits sum.splits)

text \<open>
  On a channel named like a member of \<open>Object.prototype\<close> and without an entry of
  its own, the handler reads the inherited value, which is truthy, and calls its
  missing method \<open>forEach\<close>: a \<open>TypeError\<close> leaves the handler.
\<close>

lemma on_notification_inherited:
  "lookup (subscribers w) (channel n) = Inherited \<Longrightarrow>
   on_notification beh n w = (Inl (TypeError (js_string ''subs.forEach is not a function'')), [])"
  by (simp add: on_notification_def)

lemma on_notification_empty:
  "subscribers w chan = None \<or> subscribers w chan = Some [] \<Longrightarrow>
   snd (on_notification beh \<lparr>channel = chan, payload = p\<rparr> w) = []"
  by (auto simp: on_notification_def lookup_def)

section \<open>Invariants of the registry\<close>

text \<open>
  Every member list stays duplicate-free, and no name inherited from
  \<open>Object.prototype\<close> ever gets an entry: \<open>subscribe\<close> fails on such a name
  before it writes to the registry or sends LISTEN.
\<close>

lemma distinct_sets_initial: "distinct_sets initial_world"
  by (simp add: distinct_sets_def initial_world_def)

lemma distinct_sets_subscribe:
  assumes "distinct_sets w"
  shows "distinct_sets (snd (subscribe srv chan cb w))"
  using assms subscribers_after_subscribe [of srv chan cb w]
  unfolding distinct_sets_def
  by (auto simp: distinct_set_add split: if_splits)

lemma distinct_sets_unsubscribe:
  assumes "distinct_sets w"
  shows "distinct_sets (snd (unsubscribe srv h w))"
  using assms subscribers_after_unsubscribe [of srv h w]
  unfolding distinct_sets_def
  by (auto simp: distinct_set_delete split: if_splits)

lemma no_inherited_entries_subscribe:
  assumes "no_inherited_entries w"
  shows "no_inherited_entries (snd (subscribe srv chan cb w))"
  using assms subscribers_after_subscribe [of srv chan cb w]
  unfolding no_inherited_entries_def
  by (auto simp: lookup_def split: if_splits option.splits)

lemma no_inherited_entries_unsubscribe:
  assumes "no_inherited_entries w"
  shows "no_inherited_entries (snd (unsubscribe srv h w))"
  using assms subscribers_after_unsubscribe [of srv h w]
  unfolding no_inherited_entries_def
  by (auto split: if_splits)

section \<open>The worked examples, evaluated\<close>

lemma lock_ne_listen [simp]:
  "lock_query i \<noteq> listen_query c" "unlock_query i \<noteq> listen_query c"
  "lock_query i \<noteq> unlisten_query c" "unlock_query i \<noteq> unlisten_query c"
  by (simp_all add: lock_query_def unlock_query_def listen_query_def unlisten_query_def)

lemma respond_ok [simp]: "respond ok_server q = Inr ()" "connect ok_server c = Inr ()"
  by (simp_all add: ok_server_def)

lemma respond_refusing:
  "respond (refusing bad) q = (if q = bad then Inl (Error (js_string ''query failed'')) else Inr ())"
  by (simp add: refusing_def)

lemma ready_world_eq:
  "ready_world = \<lparr>dbOptions = Some example_options,
      pgInstance = Some \<lparr>pubSubClient = Config (connectionString example_options) Ssl_undefined,
                         pool = Config (connectionString example_options) Ssl_undefined\<rparr>,
      subscribers = Map.empty, queries = []\<rparr>"
  by (simp add: ready_world_def getPGInstance_def init_def initial_world_def ok_server_def
      example_options_def Let_def)

lemma ready_established:
  "getPGInstance srv ready_world
     = (Inr \<lparr>pubSubClient = Config (connectionString example_options) Ssl_undefined,
             pool = Config (connectionString example_options) Ssl_undefined\<rparr>, ready_world)"
  by (rule getPGInstance_established) (simp_all add: ready_world_eq)

lemma ready_facts [simp]:
  "subscribers ready_world = Map.empty" "queries ready_world = []"
  by (simp_all add: ready_world_eq)

lemma hash_docs42: "hashChannel docs42 = 1828802589"
  by (simp add: docs42_def hashChannel_def js_string_def toInt32_def)

lemma docs42_not_inherited: "docs42 \<notin> set object_prototype_keys"
  by (simp add: docs42_def object_prototype_keys_def js_string_def)

lemma lookup_ready_docs42: "lookup (subscribers ready_world) docs42 = Undefined"
  by (simp add: lookup_def ready_world_eq docs42_not_inherited)

lemma h42_fields [simp]:
  "h_channel h42 = docs42" "h_callback h42 = 10" "h_lockId h42 = hashChannel docs42"
  by (simp_all add: h42_def)

lemma connected_getPGInstance: "connected w \<Longrightarrow> getPGInstance srv w = (Inr example_instance, w)"
  by (simp add: connected_def getPGInstance_established)

lemma connected_subscribe: "connected w \<Longrightarrow> connected (snd (subscribe srv chan cb w))"
  by (auto simp: connected_def subscribe_def getPGInstance_established client_query_def
      finally_unlock_def subscribe_body_def Let_def
      split: sum.splits prod.splits property.splits)

lemma connected_unsubscribe: "connected w \<Longrightarrow> connected (snd (unsubscribe srv h w))"
  by (auto simp: connected_def unsubscribe_def client_query_def
      finally_unlock_def unsubscribe_body_def Let_def
      split: sum.splits prod.splits property.splits)

lemma connected_ready [simp]: "connected ready_world"
  by (simp add: connected_def ready_world_eq example_instance_def)

lemma connected_one_subscriber [simp]: "connected one_subscriber"
  unfolding one_subscriber_def using connected_ready by (rule connected_subscribe)

lemma connected_after_failed_listen [simp]: "connected after_failed_listen"
  unfolding after_failed_listen_def using connected_ready by (rule connected_subscribe)

lemma one_subscriber_facts:
  "fst (subscribe ok_server docs42 10 ready_world) = Inr h42"
  "subscribers one_subscriber = [docs42 \<mapsto> [10]]"
  "queries one_subscriber
     = [lock_query (hashChannel docs42), listen_query docs42, unlock_query (hashChannel docs42)]"
  unfolding one_subscriber_def h42_def
  using subscribe_first [where srv = ok_server and chan = docs42 and cb = "10::nat" and w = ready_world,
      OF ready_established _ lookup_ready_docs42]
  by simp_all

lemma subscribe_again_facts:
  "fst (subscribe ok_server docs42 10 one_subscriber) = Inr h42"
  "subscribers (snd (subscribe ok_server docs42 10 one_subscriber)) = [docs42 \<mapsto> [10]]"
  using subscribe_existing(2,3) [where srv = ok_server and w = one_subscriber and cb = "10::nat"
      and chan = docs42 and subs = "[10]", OF connected_getPGInstance]
  by (simp_all add: one_subscriber_facts set_add_def h42_def)

lemma three_subscribers_facts:
  "subscribers three_subscribers = [docs42 \<mapsto> [10, 20, 30]]"
  "queries three_subscribers
     = [lock_query (hashChannel docs42), listen_query docs42, unlock_query (hashChannel docs42),
        lock_query (hashChannel docs42), unlock_query (hashChannel docs42),
        lock_query (hashChannel docs42), unlock_query (hashChannel docs42)]"
proof -
  let ?two = "snd (subscribe ok_server docs42 20 one_subscriber)"
  have c2: "connected ?two" by (simp add: connected_subscribe)
  have s2: "subscribers ?two = [docs42 \<mapsto> [10, 20]]"
    using subscribe_existing(2) [where srv = ok_server and w = one_subscriber and cb = "20::nat"
        and chan = docs42 and subs = "[10]", OF connected_getPGInstance]
    by (simp add: one_subscriber_facts set_add_def)
  have q2: "queries ?two = queries one_subscriber
              @ [lock_query (hashChannel docs42), unlock_query (hashChannel docs42)]"
    using subscribe_existing(1) [where srv = ok_server and w = one_subscriber and cb = "20::nat"
        and chan = docs42 and subs = "[10]", OF connected_getPGInstance]
    by (simp add: one_subscriber_facts)
  show "subscribers three_subscribers = [docs42 \<mapsto> [10, 20, 30]]"
    unfolding three_subscribers_def
    using subscribe_existing(2) [where srv = ok_server and w = ?two and cb = "30::nat"
        and chan = docs42 and subs = "[10, 20]", OF connected_getPGInstance [OF c2]]
    by (simp add: s2 set_add_def)
  show "queries three_subscribers
     = [lock_query (hashChannel docs42), listen_query docs42, unlock_query (hashChannel docs42),
        lock_query (hashChannel docs42), unlock_query (hashChannel docs42),
        lock_query (hashChannel docs42), unlock_query (hashChannel docs42)]"
    unfolding three_subscribers_def
    using subscribe_existing(1) [where srv = ok_server and w = ?two and cb = "30::nat"
        and chan = docs42 and subs = "[10, 20]", OF connected_getPGInstance [OF c2]]
    by (simp add: s2 q2 one_subscriber_facts)
qed

lemma after_failed_listen_facts:
  "fst (subscribe (refusing (listen_query docs42)) docs42 (10::nat) ready_world) = Inl (Error (js_string ''query failed''))"
  "subscribers after_failed_listen = [docs42 \<mapsto> []]"
  "queries after_failed_listen = [lock_query 1828802589, listen_query docs42, unlock_query 1828802589]"
  unfolding after_failed_listen_def
  by (simp_all add: subscribe_def subscribe_body_def finally_unlock_def client_query_def Let_def
      getPGInstance_established ready_world_eq lookup_def docs42_not_inherited
      hash_docs42 refusing_def lock_query_def unlock_query_def listen_query_def set_delete_def)

lemma after_failed_unlisten_facts:
  "subscribers after_failed_unlisten = [docs42 \<mapsto> []]"
  "fst (unsubscribe (refusing (unlisten_query docs42)) h42 one_subscriber)
     = Inl (Error (js_string ''query failed''))"
  unfolding after_failed_unlisten_def
  by (simp_all add: unsubscribe_def unsubscribe_body_def client_query_def finally_unlock_def
      respond_refusing one_subscriber_facts lookup_def set_delete_def Let_def)

section \<open>Connection fallback (C8), evaluated\<close>

text \<open>
  The fallback on the example options: a server that rejects every attempt but the
  one without SSL gets a client and a pool with \<open>ssl: false\<close>; a server that
  rejects the first attempt for another reason sees the error raised and no retry.
\<close>

theorem getPGInstance_prefer_witness:
  "fst (getPGInstance no_ssl_server (init example_options (initial_world :: nat world)))
     = Inr \<lparr>pubSubClient = Config (connectionString example_options) Ssl_false,
            pool = Config (connectionString example_options) Ssl_false\<rparr> \<and>
   pgInstance (snd (getPGInstance no_ssl_server (init example_options (initial_world :: nat world))))
     = Some \<lparr>pubSubClient = Config (connectionString example_options) Ssl_false,
              pool = Config (connectionString example_options) Ssl_false\<rparr> \<and>
   getPGInstance auth_refused_server (init example_options (initial_world :: nat world))
     = (Inl (Error (js_string ''password authentication failed'')),
        init example_options initial_world)"
proof -
  let ?w = "init example_options (initial_world :: nat world)"
  have o: "dbOptions ?w = Some example_options" by (simp add: init_def)
  have p: "ssl example_options = Prefer" by (simp add: example_options_def)
  have n: "pgInstance ?w = None" by (simp add: init_def initial_world_def)
  have c1: "connect no_ssl_server (Config (connectionString example_options) Ssl_undefined)
              = Inl (Error ssl_unsupported)
            \<and> instanceof_Error (Error ssl_unsupported)
            \<and> message (Error ssl_unsupported) = Some ssl_unsupported
            \<and> connect no_ssl_server (Config (connectionString example_options) Ssl_false) = Inr ()"
    by (simp add: no_ssl_server_def)
  have c2: "connect auth_refused_server (Config (connectionString example_options) Ssl_undefined)
              = Inl (Error (js_string ''password authentication failed''))
            \<and> \<not> (instanceof_Error (Error (js_string ''password authentication failed''))
                 \<and> message (Error (js_string ''password authentication failed''))
                     = Some ssl_unsupported)"
    by (simp add: ssl_unsupported_def js_string_def auth_refused_server_def)
  have a: "getPGInstance no_ssl_server ?w
             = (Inr \<lparr>pubSubClient = Config (connectionString example_options) Ssl_false,
                      pool = Config (connectionString example_options) Ssl_false\<rparr>,
                ?w\<lparr>pgInstance :=
                      Some \<lparr>pubSubClient = Config (connectionString example_options) Ssl_false,
                            pool = Config (connectionString example_options) Ssl_false\<rparr>\<rparr>)"
    using getPGInstance_prefer [OF o p n, of no_ssl_server] c1 by blast
  have b: "getPGInstance auth_refused_server ?w
             = (Inl (Error (js_string ''password authentication failed'')), ?w)"
    using getPGInstance_prefer [OF o p n, of auth_refused_server] c2 by blast
  show ?thesis using a b by simp
qed

text \<open>
  C8 as stated fails. The first attempt carries no \<open>ssl\<close> setting, and the call
  does not always succeed after the server reported that it does not support SSL:
  when the retry is answered in the same way, the call raises that error and no
  connection is remembered.
\<close>

theorem getPGInstance_prefer_counterexample:
  "ssl example_options = Prefer \<and>
   fst (getPGInstance ok_server (init example_options (initial_world :: nat world)))
     = Inr \<lparr>pubSubClient = Config (connectionString example_options) Ssl_undefined,
            pool = Config (connectionString example_options) Ssl_undefined\<rparr> \<and>
   connect ssl_refusing_server (Config (connectionString example_options) Ssl_undefined)
     = Inl (Error ssl_unsupported) \<and>
   getPGInstance ssl_refusing_server (init example_options (initial_world :: nat world))
     = (Inl (Error ssl_unsupported), init example_options initial_world) \<and>
   pgInstance (snd (getPGInstance ssl_refusing_server
                      (init example_options (initial_world :: nat world)))) = None"
  by (simp add: getPGInstance_def init_def initial_world_def example_options_def
      ssl_refusing_server_def ok_server_def Let_def)

section \<open>A failed LISTEN (C1)\<close>

text \<open>
  C1 fails on the code. On a channel without an entry, with the LISTEN query refused,
  \<open>subscribe\<close> raises the query's error to the caller, but its rollback deletes
  the callback from the new set and leaves the empty set in the registry. The
  channel's lookup is no longer undefined, so the next \<open>subscribe\<close> on the channel
  takes the branch of an existing set and sends no LISTEN, where a first subscription
  sends one.
\<close>

theorem subscribe_listen_failure:
  "lookup (subscribers ready_world) docs42 = Undefined \<and>
   fst (subscribe (refusing (listen_query docs42)) docs42 10 ready_world)
     = Inl (Error (js_string ''query failed'')) \<and>
   subscribers after_failed_listen docs42 = Some [] \<and>
   lookup (subscribers after_failed_listen) docs42 \<noteq> Undefined \<and>
   queries (snd (subscribe ok_server docs42 20 after_failed_listen))
     = queries after_failed_listen
         @ [lock_query (hashChannel docs42), unlock_query (hashChannel docs42)] \<and>
   queries (snd (subscribe ok_server docs42 20 ready_world))
     = queries ready_world
         @ [lock_query (hashChannel docs42), listen_query docs42,
            unlock_query (hashChannel docs42)]"
proof -
  have est: "getPGInstance ok_server after_failed_listen = (Inr example_instance, after_failed_listen)"
    by (simp add: connected_getPGInstance)
  have s: "subscribers after_failed_listen docs42 = Some []"
    by (simp add: after_failed_listen_facts)
  show ?thesis
    using subscribe_existing(1) [OF est _ s, of 20]
      subscribe_first(1) [where srv = ok_server and cb = "20::nat", OF ready_established _ lookup_ready_docs42]
    by (simp add: lookup_ready_docs42 after_failed_listen_facts lookup_def hash_docs42
        docs42_not_inherited)
qed

section \<open>First subscription and later ones (C4)\<close>

text \<open>
  C4 fails on the code for the channel names that \<open>Object.prototype\<close> defines.
  The registry has no subscriber set for \<open>toString\<close>, yet \<open>subscribe\<close> reads
  the inherited function there, takes the branch of an existing set and raises a
  \<open>TypeError\<close>: no set is created and no LISTEN is sent, only the lock and unlock
  queries. For every other channel \<open>subscribe_first\<close> and
  \<open>subscribe_existing\<close> above give what C4 says.
\<close>

theorem subscribe_inherited_name:
  "subscribers ready_world (js_string ''toString'') = None \<and>
   fst (subscribe ok_server (js_string ''toString'') 10 ready_world)
     = Inl (TypeError (js_string ''subs.add is not a function'')) \<and>
   subscribers (snd (subscribe ok_server (js_string ''toString'') 10 ready_world)) = Map.empty \<and>
   queries (snd (subscribe ok_server (js_string ''toString'') 10 ready_world))
     = [lock_query (hashChannel (js_string ''toString'')),
        unlock_query (hashChannel (js_string ''toString''))]"
proof -
  have i: "lookup (subscribers ready_world) (js_string ''toString'') = Inherited"
    by (simp add: lookup_def object_prototype_keys_def js_string_def)
  show ?thesis
    using i
    by (simp add: subscribe_def ready_established client_query_def finally_unlock_def
        subscribe_body_def Let_def)
qed

section \<open>The last subscriber leaves (C5)\<close>

text \<open>
  C5: when the advisory lock is granted and the handle's callback is in the channel's
  set, then (a) if it is the only member, exactly one UNLISTEN is sent, between the
  lock and the unlock, the channel's entry is deleted once the UNLISTEN succeeded, and
  a later publish to the channel reaches no callback; (b) if other members remain, no
  UNLISTEN is sent and the entry is kept, without the callback.
\<close>

theorem unsubscribe_last_subscriber:
  assumes "respond srv (lock_query (h_lockId h)) = Inr ()"
      and "subscribers w (h_channel h) = Some subs"
      and "h_callback h \<in> set subs"
  shows "(set subs = {h_callback h} \<longrightarrow>
            queries (snd (unsubscribe srv h w))
              = queries w @ [lock_query (h_lockId h), unlisten_query (h_channel h),
                             unlock_query (h_lockId h)] \<and>
            (respond srv (unlisten_query (h_channel h)) = Inr () \<longrightarrow>
               subscribers (snd (unsubscribe srv h w)) = (subscribers w)(h_channel h := None)) \<and>
            snd (on_notification beh \<lparr>channel = h_channel h, payload = Some msg\<rparr>
                   (snd (publish srv' (h_channel h) msg (snd (unsubscribe srv h w))))) = []) \<and>
         (set subs \<noteq> {h_callback h} \<longrightarrow>
            queries (snd (unsubscribe srv h w))
              = queries w @ [lock_query (h_lockId h), unlock_query (h_lockId h)] \<and>
            subscribers (snd (unsubscribe srv h w))
              = (subscribers w)(h_channel h \<mapsto> set_delete (h_callback h) subs) \<and>
            set_delete (h_callback h) subs \<noteq> [])"
proof (cases "set subs = {h_callback h}")
  case True
  then have e: "set_delete (h_callback h) subs = []"
    by (simp add: set_delete_empty_iff)
  have "subscribers (snd (unsubscribe srv h w)) (h_channel h) = None
        \<or> subscribers (snd (unsubscribe srv h w)) (h_channel h) = Some []"
  proof (cases "respond srv (unlisten_query (h_channel h))")
    case (Inl x)
    then show ?thesis using unsubscribe_emptied(4) [OF assms(1,2) e] by simp
  next
    case (Inr u)
    then show ?thesis using unsubscribe_emptied(2) [OF assms(1,2) e] by simp
  qed
  then have "snd (on_notification beh \<lparr>channel = h_channel h, payload = Some msg\<rparr>
                   (snd (publish srv' (h_channel h) msg (snd (unsubscribe srv h w))))) = []"
    by (intro on_notification_empty) (simp add: publish_keeps)
  then show ?thesis
    using True unsubscribe_emptied(1,2) [OF assms(1,2) e] by simp
next
  case False
  then have ne: "set_delete (h_callback h) subs \<noteq> []"
    using assms(3) by (auto simp: set_delete_empty_iff)
  show ?thesis
    using False ne unsubscribe_others_remain(1,2) [OF assms(1,2) ne] by simp
qed

text \<open>
  On \<open>docs:42\<close>: the handle of the only subscriber sends one UNLISTEN and empties
  the registry, and a later publish calls nobody; with three subscribers the same
  handle sends no UNLISTEN and leaves callbacks 20 and 30.
\<close>

theorem unsubscribe_last_subscriber_witness:
  "queries (snd (unsubscribe ok_server h42 one_subscriber))
     = queries one_subscriber
         @ [lock_query (hashChannel docs42), unlisten_query docs42,
            unlock_query (hashChannel docs42)] \<and>
   subscribers (snd (unsubscribe ok_server h42 one_subscriber)) = Map.empty \<and>
   snd (on_notification quiet \<lparr>channel = docs42, payload = Some updated\<rparr>
          (snd (publish ok_server docs42 updated
                  (snd (unsubscribe ok_server h42 one_subscriber))))) = [] \<and>
   queries (snd (unsubscribe ok_server h42 three_subscribers))
     = queries three_subscribers
         @ [lock_query (hashChannel docs42), unlock_query (hashChannel docs42)] \<and>
   subscribers (snd (unsubscribe ok_server h42 three_subscribers)) = [docs42 \<mapsto> [20, 30]]"
proof -
  have l: "respond ok_server (lock_query (h_lockId h42)) = Inr ()" by simp
  have s1: "subscribers one_subscriber (h_channel h42) = Some [10]"
    by (simp add: one_subscriber_facts)
  have s3: "subscribers three_subscribers (h_channel h42) = Some [10, 20, 30]"
    by (simp add: three_subscribers_facts)
  have m1: "h_callback h42 \<in> set [10]" and m3: "h_callback h42 \<in> set [10, 20, 30]"
    by simp_all
  show ?thesis
    using unsubscribe_last_subscriber [OF l s1 m1, where beh = quiet and msg = updated
        and srv' = ok_server]
      unsubscribe_last_subscriber [OF l s3 m3, where beh = quiet and msg = updated
        and srv' = ok_server]
    by (simp add: one_subscriber_facts three_subscribers_facts set_delete_def)
qed

section \<open>Dispatch of a notification (C6)\<close>

text \<open>
  What the handler does on a channel whose lookup gives nothing or a set. If the
  lookup gives nothing, the event is dropped: no callback is called and nothing is
  raised. If it gives a set and no callback throws, every member is called once with
  the event's payload, in the set's order (the order of registration). If a callback
  throws, the members before it were called in order, it is the last one called, and
  its exception leaves the handler.
\<close>

lemma notification_dispatch:
  "(lookup (subscribers w) (channel n) = Undefined \<longrightarrow> on_notification beh n w = (Inr (), [])) \<and>
   (\<forall>subs. subscribers w (channel n) = Some subs \<longrightarrow>
      ((\<forall>sub\<in>set subs. beh sub (payload n) = Inr ()) \<longrightarrow>
          on_notification beh n w = (Inr (), map (\<lambda>sub. (sub, payload n)) subs)) \<and>
      (\<forall>pre sub post e.
          subs = pre @ sub # post \<and> (\<forall>s\<in>set pre. beh s (payload n) = Inr ())
            \<and> beh sub (payload n) = Inl e \<longrightarrow>
          on_notification beh n w = (Inl e, map (\<lambda>s. (s, payload n)) (pre @ [sub]))))"
proof (intro conjI allI impI)
  assume "lookup (subscribers w) (channel n) = Undefined"
  then show "on_notification beh n w = (Inr (), [])"
    by (simp add: on_notification_def)
next
  fix subs
  assume s: "subscribers w (channel n) = Some subs"
     and ok: "\<forall>sub\<in>set subs. beh sub (payload n) = Inr ()"
  have "forEach (\<lambda>sub. beh sub (payload n)) subs = (Inr (), subs)"
    using ok by (intro forEach_all_ok) simp
  then show "on_notification beh n w = (Inr (), map (\<lambda>sub. (sub, payload n)) subs)"
    using s by (simp add: on_notification_def lookup_def)
next
  fix subs pre sub post e
  assume s: "subscribers w (channel n) = Some subs"
     and r: "subs = pre @ sub # post \<and> (\<forall>s\<in>set pre. beh s (payload n) = Inr ())
               \<and> beh sub (payload n) = Inl e"
  have "forEach (\<lambda>sub. beh sub (payload n)) (pre @ sub # post) = (Inl e, pre @ [sub])"
    using r by (intro forEach_first_raise) simp_all
  then show "on_notification beh n w = (Inl e, map (\<lambda>s. (s, payload n)) (pre @ [sub]))"
    using s r by (simp add: on_notification_def lookup_def)
qed

text \<open>
  Three subscribers registered in the order 10, 20, 30: when none throws, all are
  called in that order; when callback 20 throws, 10 and 20 were called and the error
  leaves the handler; without an entry nothing is called.
\<close>

lemma notification_dispatch_examples:
  "on_notification (raising 20) \<lparr>channel = docs42, payload = Some updated\<rparr> three_subscribers
     = (Inl (Error (js_string ''callback failed'')), [(10, Some updated), (20, Some updated)]) \<and>
   on_notification quiet \<lparr>channel = docs42, payload = Some updated\<rparr> three_subscribers
     = (Inr (), [(10, Some updated), (20, Some updated), (30, Some updated)]) \<and>
   on_notification quiet \<lparr>channel = docs42, payload = Some updated\<rparr> ready_world
     = (Inr (), [])"
proof -
  let ?n = "\<lparr>channel = docs42, payload = Some updated\<rparr>"
  have s: "subscribers three_subscribers (channel ?n) = Some [10, 20, 30]"
    by (simp add: three_subscribers_facts)
  have u: "lookup (subscribers ready_world) (channel ?n) = Undefined"
    by (simp add: lookup_def docs42_not_inherited)
  have q: "\<forall>sub\<in>set [10, 20, 30]. quiet sub (payload ?n) = Inr ()"
    by (simp add: quiet_def)
  have r: "[10, 20, 30] = [10] @ 20 # [30] \<and> (\<forall>s\<in>set [10]. raising 20 s (payload ?n) = Inr ())
             \<and> raising 20 20 (payload ?n) = Inl (Error (js_string ''callback failed''))"
    by (simp add: raising_def)
  have a: "on_notification (raising 20) ?n three_subscribers
             = (Inl (Error (js_string ''callback failed'')),
                map (\<lambda>s. (s, payload ?n)) ([10] @ [20]))"
    using notification_dispatch [of three_subscribers ?n "raising 20"] s r by blast
  have b: "on_notification quiet ?n three_subscribers
             = (Inr (), map (\<lambda>sub. (sub, payload ?n)) [10, 20, 30])"
    using notification_dispatch [of three_subscribers ?n quiet] s q by blast
  have c: "on_notification quiet ?n ready_world = (Inr (), [])"
    using notification_dispatch [of ready_world ?n quiet] u by blast
  show ?thesis using a b c by simp
qed

text \<open>
  C6 fails on the code for the channel names that \<open>Object.prototype\<close> defines.
  With no subscriber set for \<open>toString\<close> in the registry, a notification on that
  channel is not dropped: the handler raises a \<open>TypeError\<close> and calls nobody. For
  every other channel \<open>notification_dispatch\<close> above gives what C6 says.
\<close>

theorem notification_inherited_name:
  "subscribers ready_world (js_string ''toString'') = None \<and>
   on_notification quiet \<lparr>channel = js_string ''toString'', payload = Some updated\<rparr> ready_world
     = (Inl (TypeError (js_string ''subs.forEach is not a function'')), [])"
proof -
  have i: "lookup (subscribers ready_world) (js_string ''toString'') = Inherited"
    by (simp add: lookup_def object_prototype_keys_def js_string_def)
  show ?thesis
    using on_notification_inherited
      [of ready_world "\<lparr>channel = js_string ''toString'', payload = Some updated\<rparr>" quiet] i
    by simp
qed

section \<open>The same callback registered twice (C7)\<close>

text \<open>
  C7: after two successful \<open>subscribe\<close> calls with the same callback on the same
  channel, the channel's set holds the callback once; a notification on the channel
  calls it at most once, and exactly once when no callback registered before it
  throws.
\<close>

theorem same_callback_twice_one_delivery:
  assumes "distinct_sets w"
      and "subscribe srv1 chan cb w = (Inr h1, w1)"
      and "subscribe srv2 chan cb w1 = (Inr h2, w2)"
  shows "\<exists>subs. subscribers w2 chan = Some subs \<and> count_list subs cb = 1 \<and>
           count_list (snd (on_notification beh \<lparr>channel = chan, payload = p\<rparr> w2)) (cb, p) \<le> 1 \<and>
           ((\<forall>s\<in>set (takeWhile (\<lambda>s. s \<noteq> cb) subs). beh s p = Inr ()) \<longrightarrow>
              count_list (snd (on_notification beh \<lparr>channel = chan, payload = p\<rparr> w2)) (cb, p) = 1)"
proof -
  have d1: "distinct_sets w1"
    using distinct_sets_subscribe [OF assms(1), of srv1 chan cb] assms(2) by simp
  obtain s1 where s1: "subscribers w1 chan = Some s1" "cb \<in> set s1"
    using subscribe_ok_registered [OF assms(2)] by (auto simp: set_add_def split: if_splits)
  have ds1: "distinct s1" using d1 s1(1) by (simp add: distinct_sets_def)
  have s2: "subscribers w2 chan = Some s1"
    using subscribe_ok_registered [OF assms(3)] s1 by (simp add: set_add_member)
  let ?called = "snd (forEach (\<lambda>sub. beh sub p) s1)"
  have calls: "snd (on_notification beh \<lparr>channel = chan, payload = p\<rparr> w2)
                 = map (\<lambda>sub. (sub, p)) ?called"
    using s2 by (simp add: on_notification_def lookup_def split: prod.splits)
  have cnt: "count_list (map (\<lambda>sub. (sub, p)) ?called) (cb, p) = count_list ?called cb"
    by (rule count_list_map_conv) (simp add: inj_on_def)
  obtain rest where rest: "s1 = ?called @ rest"
    using forEach_prefix [of s1 "\<lambda>sub. beh sub p"] by blast
  have dc: "distinct ?called" using ds1 rest by (metis distinct_append)
  have le: "count_list ?called cb \<le> 1" using dc by (rule count_list_distinct_le)
  have one: "count_list ?called cb = 1"
    if "\<forall>s\<in>set (takeWhile (\<lambda>s. s \<noteq> cb) s1). beh s p = Inr ()"
    using forEach_reaches [of cb s1 "\<lambda>sub. beh sub p"] that s1(2) dc
    by (simp add: count_list_distinct)
  show ?thesis
    using s2 ds1 s1(2) calls cnt le one by (simp add: count_list_distinct)
qed

text \<open>
  Callback 10 subscribed twice on \<open>docs:42\<close>: the set is [10] and one notification
  calls it once.
\<close>

theorem same_callback_twice_one_delivery_witness:
  "subscribers (snd (subscribe ok_server docs42 10 one_subscriber)) docs42 = Some [10] \<and>
   count_list
     (snd (on_notification quiet \<lparr>channel = docs42, payload = Some updated\<rparr>
             (snd (subscribe ok_server docs42 10 one_subscriber))))
     (10, Some updated) = 1"
proof -
  let ?w2 = "snd (subscribe ok_server docs42 10 one_subscriber)"
  have d: "distinct_sets ready_world"
    by (simp add: distinct_sets_def)
  have a: "subscribe ok_server docs42 10 ready_world = (Inr h42, one_subscriber)"
    using one_subscriber_facts(1) by (simp add: one_subscriber_def prod_eq_iff)
  have b: "subscribe ok_server docs42 10 one_subscriber = (Inr h42, ?w2)"
    using subscribe_again_facts(1) by (simp add: prod_eq_iff)
  obtain subs where s: "subscribers ?w2 docs42 = Some subs"
    and c: "(\<forall>s\<in>set (takeWhile (\<lambda>s. s \<noteq> 10) subs). quiet s (Some updated) = Inr ()) \<longrightarrow>
            count_list (snd (on_notification quiet \<lparr>channel = docs42, payload = Some updated\<rparr> ?w2))
              (10, Some updated) = 1"
    using same_callback_twice_one_delivery [OF d a b, of quiet "Some updated"] by blast
  show ?thesis using s c by (simp add: quiet_def subscribe_again_facts)
qed

section \<open>Unsubscribing an absent callback (C9)\<close>

text \<open>
  C9, as the code has it: invoking a handle when the channel's lookup gives nothing,
  or when the channel's set is not empty and does not hold the callback, leaves the
  registry unchanged and sends no UNLISTEN (only the lock query, and the unlock query
  when the lock was granted); it returns without raising when both of them succeed.
\<close>

theorem unsubscribe_absent_is_noop:
  assumes "lookup (subscribers w) (h_channel h) = Undefined \<or>
           (\<exists>subs. subscribers w (h_channel h) = Some subs \<and> subs \<noteq> []
                    \<and> h_callback h \<notin> set subs)"
  shows "subscribers (snd (unsubscribe srv h w)) = subscribers w \<and>
         queries (snd (unsubscribe srv h w))
           = queries w @ lock_query (h_lockId h)
               # (if isl (respond srv (lock_query (h_lockId h))) then []
                  else [unlock_query (h_lockId h)]) \<and>
         (respond srv (lock_query (h_lockId h)) = Inr ()
            \<and> respond srv (unlock_query (h_lockId h)) = Inr ()
          \<longrightarrow> fst (unsubscribe srv h w) = Inr ())"
proof (cases "respond srv (lock_query (h_lockId h))")
  case (Inl e)
  then show ?thesis by (simp add: unsubscribe_lock_refused)
next
  case (Inr u)
  then have l: "respond srv (lock_query (h_lockId h)) = Inr ()" by simp
  from assms show ?thesis
  proof
    assume a: "lookup (subscribers w) (h_channel h) = Undefined"
    show ?thesis using unsubscribe_absent_entry [OF l a] l by simp
  next
    assume "\<exists>subs. subscribers w (h_channel h) = Some subs \<and> subs \<noteq> []
                    \<and> h_callback h \<notin> set subs"
    then obtain subs where s: "subscribers w (h_channel h) = Some subs"
      and ne: "subs \<noteq> []" and ab: "h_callback h \<notin> set subs" by blast
    have same: "set_delete (h_callback h) subs = subs" using ab by (rule set_delete_absent)
    then have ne': "set_delete (h_callback h) subs \<noteq> []" using ne by simp
    have "(subscribers w)(h_channel h \<mapsto> subs) = subscribers w"
      using s by (rule map_upd_triv)
    then show ?thesis using unsubscribe_others_remain [OF l s ne'] l same by simp
  qed
qed

text \<open>
  The handle of callback 10 invoked on the empty registry, and on a registry where
  only callback 20 subscribes to the channel: nothing changes and nothing is raised.
\<close>

theorem unsubscribe_absent_is_noop_witness:
  "unsubscribe ok_server h42 ready_world
     = (Inr (), ready_world\<lparr>queries := [lock_query (hashChannel docs42),
                                          unlock_query (hashChannel docs42)]\<rparr>) \<and>
   fst (unsubscribe ok_server h42 (snd (subscribe ok_server docs42 20 ready_world))) = Inr () \<and>
   subscribers (snd (unsubscribe ok_server h42 (snd (subscribe ok_server docs42 20 ready_world))))
     = [docs42 \<mapsto> [20]]"
proof -
  let ?w = "snd (subscribe ok_server docs42 20 ready_world)"
  have sw: "subscribers ?w = [docs42 \<mapsto> [20]]"
    using subscribe_first(2) [where srv = ok_server and cb = "20::nat",
        OF ready_established _ lookup_ready_docs42]
    by simp
  have a: "lookup (subscribers ready_world) (h_channel h42) = Undefined \<or>
           (\<exists>subs. subscribers ready_world (h_channel h42) = Some subs \<and> subs \<noteq> []
                    \<and> h_callback h42 \<notin> set subs)"
    by (simp add: lookup_def docs42_not_inherited)
  have b: "lookup (subscribers ?w) (h_channel h42) = Undefined \<or>
           (\<exists>subs. subscribers ?w (h_channel h42) = Some subs \<and> subs \<noteq> []
                    \<and> h_callback h42 \<notin> set subs)"
    by (simp add: sw)
  have "subscribers (snd (unsubscribe ok_server h42 ready_world)) = subscribers ready_world"
    and "queries (snd (unsubscribe ok_server h42 ready_world))
          = [lock_query (hashChannel docs42), unlock_query (hashChannel docs42)]"
    and "fst (unsubscribe ok_server h42 ready_world) = Inr ()"
    using unsubscribe_absent_is_noop [OF a, of ok_server] by simp_all
  moreover have "unsubscribe ok_server h42 ready_world
     = (Inr (), ready_world\<lparr>queries := [lock_query (hashChannel docs42),
                                          unlock_query (hashChannel docs42)]\<rparr>)"
    by (simp add: unsubscribe_def unsubscribe_body_def client_query_def finally_unlock_def
        lookup_def docs42_not_inherited)
  ultimately show ?thesis
    using unsubscribe_absent_is_noop [OF b, of ok_server] sw by simp
qed

text \<open>
  C9 as stated fails when the channel's set is empty. After an UNLISTEN that the
  server refused, the entry of \<open>docs:42\<close> is the empty set; invoking the handle
  again, its callback no longer in the set, sends UNLISTEN and deletes the entry.
\<close>

theorem unsubscribe_absent_counterexample:
  "fst (subscribe ok_server docs42 10 ready_world) = Inr h42 \<and>
   subscribers after_failed_unlisten docs42 = Some [] \<and>
   h_callback h42 \<notin> set [] \<and>
   \<not> (subscribers (snd (unsubscribe ok_server h42 after_failed_unlisten))
        = subscribers after_failed_unlisten) \<and>
   queries (snd (unsubscribe ok_server h42 after_failed_unlisten))
     = queries after_failed_unlisten
         @ [lock_query (hashChannel docs42), unlisten_query docs42,
            unlock_query (hashChannel docs42)]"
proof -
  have l: "respond ok_server (lock_query (h_lockId h42)) = Inr ()" by simp
  have s: "subscribers after_failed_unlisten (h_channel h42) = Some []"
    by (simp add: after_failed_unlisten_facts)
  have e: "set_delete (h_callback h42) [] = []" by (simp add: set_delete_def)
  have "subscribers (snd (unsubscribe ok_server h42 after_failed_unlisten)) docs42 = None"
    using unsubscribe_emptied(2) [OF l s e] by simp
  then have "subscribers (snd (unsubscribe ok_server h42 after_failed_unlisten))
               \<noteq> subscribers after_failed_unlisten"
    using s by auto
  then show ?thesis
    using unsubscribe_emptied(1) [OF l s e] s
    by (simp add: one_subscriber_facts)
qed

section \<open>What a handle is keyed by (C10)\<close>

text \<open>
  C10: the handle that a successful \<open>subscribe\<close> returns is made of the channel,
  the callback and the channel's lock id, nothing else. Invoked in any state where the
  channel's set holds the callback (whichever \<open>subscribe\<close> call put it there) and
  the lock is granted, it removes the callback from the set: the entry becomes the set
  without the callback, or, if that is empty, is deleted (it stays as the empty set
  when the UNLISTEN is refused). A stale handle therefore removes a later
  re-registration of the same callback.
\<close>

theorem handle_keyed_by_channel_and_callback:
  assumes "subscribe srv0 chan cb w0 = (Inr h, w1)"
      and "respond srv (lock_query (hashChannel chan)) = Inr ()"
      and "subscribers w chan = Some subs"
      and "cb \<in> set subs"
  shows "h = \<lparr>h_channel = chan, h_callback = cb, h_lockId = hashChannel chan\<rparr> \<and>
         subscribers (snd (unsubscribe srv h w)) chan
           = (if set_delete cb subs = []
              then (if isl (respond srv (unlisten_query chan)) then Some [] else None)
              else Some (set_delete cb subs)) \<and>
         cb \<notin> set (set_delete cb subs)"
proof -
  have h: "h = \<lparr>h_channel = chan, h_callback = cb, h_lockId = hashChannel chan\<rparr>"
    using assms(1) by (rule subscribe_ok_handle)
  have l: "respond srv (lock_query (h_lockId h)) = Inr ()" using assms(2) h by simp
  have s: "subscribers w (h_channel h) = Some subs" using assms(3) h by simp
  show ?thesis
  proof (cases "set_delete cb subs = []")
    case True
    then have e: "set_delete (h_callback h) subs = []" using h by simp
    show ?thesis
    proof (cases "respond srv (unlisten_query chan)")
      case (Inl x)
      then show ?thesis
        using unsubscribe_emptied(4) [OF l s e, of x] h True by (simp add: set_delete_removes)
    next
      case (Inr u)
      then show ?thesis
        using unsubscribe_emptied(2) [OF l s e] h True by (simp add: set_delete_removes)
    qed
  next
    case False
    then have ne: "set_delete (h_callback h) subs \<noteq> []" using h by simp
    show ?thesis
      using unsubscribe_others_remain(2) [OF l s ne] h False by (simp add: set_delete_removes)
  qed
qed

text \<open>
  The stale handle: callback 10 subscribes and gets \<open>h42\<close>, unsubscribes with it,
  subscribes again; invoking \<open>h42\<close> once more removes the new registration.
\<close>

theorem handle_keyed_by_channel_and_callback_witness:
  "fst (subscribe ok_server docs42 10 ready_world) = Inr h42 \<and>
   subscribers (snd (unsubscribe ok_server h42 one_subscriber)) = Map.empty \<and>
   subscribers (snd (subscribe ok_server docs42 10 (snd (unsubscribe ok_server h42 one_subscriber))))
     = [docs42 \<mapsto> [10]] \<and>
   subscribers
     (snd (unsubscribe ok_server h42
        (snd (subscribe ok_server docs42 10 (snd (unsubscribe ok_server h42 one_subscriber))))))
     docs42 = None"
proof -
  let ?gone = "snd (unsubscribe ok_server h42 one_subscriber)"
  let ?again = "snd (subscribe ok_server docs42 10 ?gone)"
  have l: "respond ok_server (lock_query (h_lockId h42)) = Inr ()" by simp
  have s1: "subscribers one_subscriber (h_channel h42) = Some [10]"
    by (simp add: one_subscriber_facts)
  have e: "set_delete (h_callback h42) [10] = []" by (simp add: set_delete_def)
  have g: "subscribers ?gone = Map.empty"
    using unsubscribe_emptied(2) [OF l s1 e] by (simp add: one_subscriber_facts)
  have cg: "connected ?gone" by (simp add: connected_unsubscribe)
  have lg: "lookup (subscribers ?gone) docs42 = Undefined"
    by (simp add: g lookup_def docs42_not_inherited)
  have ag: "subscribers ?again = [docs42 \<mapsto> [10]]"
    using subscribe_first(2) [where srv = ok_server and cb = "10::nat",
        OF connected_getPGInstance [OF cg] _ lg]
    by (simp add: g)
  have first: "subscribe ok_server docs42 10 ready_world = (Inr h42, one_subscriber)"
    using one_subscriber_facts(1) by (simp add: one_subscriber_def prod_eq_iff)
  have "subscribers (snd (unsubscribe ok_server h42 ?again)) docs42 = None"
    using handle_keyed_by_channel_and_callback [OF first, of ok_server ?again "[10]"]
    by (simp add: ag set_delete_def)
  then show ?thesis using g ag one_subscriber_facts(1) by simp
qed

end
